theory Spec2Isabelle
  imports Complex_Main "HOL-Library.List_Lexorder" "HOL-Library.Char_ord"
begin

section \<open>Common machine-level notions\<close>

text \<open>
  Outcomes that are not a normal return. \<open>ArgumentErr\<close> and \<open>IOErr\<close> are the two
  exception classes thrown by the code; \<open>UndefinedBehaviour\<close> marks executions that
  leave defined C++ (signed overflow, an out-of-range conversion, an index past the end
  of a fixed-size vector, an unterminated buffer); \<open>Inexact\<close> marks a conversion of a
  64-bit count to \<open>double\<close> that would round; \<open>NotANumber\<close> marks a floating-point
  division by zero, whose result is no real number.
\<close>

datatype error = ArgumentErr | IOErr | UndefinedBehaviour | Inexact | NotANumber

definition INT_MAX :: int where
  "INT_MAX = 2147483647"

definition INT_MIN :: int where
  "INT_MIN = - 2147483648"

text \<open>The cast \<open>(int) x\<close> of a \<open>double\<close>: truncation toward zero, defined only when the
  truncated value fits a 32-bit \<open>int\<close>. Doubles are modelled as reals.\<close>

definition double_to_int :: "real \<Rightarrow> int option" where
  "double_to_int x =
     (let t = (if 0 \<le> x then \<lfloor>x\<rfloor> else \<lceil>x\<rceil>)
      in if INT_MIN \<le> t \<and> t \<le> INT_MAX then Some t else None)"

text \<open>Multiplication of two \<open>int\<close>s; signed overflow is undefined.\<close>

definition int_mul :: "int \<Rightarrow> int \<Rightarrow> int option" where
  "int_mul a b = (if INT_MIN \<le> a * b \<and> a * b \<le> INT_MAX then Some (a * b) else None)"

text \<open>Integer division of C++: the quotient is truncated toward zero.\<close>

definition c_div :: "int \<Rightarrow> int \<Rightarrow> int" where
  "c_div a b = sgn a * sgn b * (\<bar>a\<bar> div \<bar>b\<bar>)"

text \<open>The remainder of C++: it has the sign of the dividend.\<close>

definition c_rem :: "int \<Rightarrow> int \<Rightarrow> int" where
  "c_rem a b = a - b * c_div a b"

section \<open>Outlier estimator (point2dem.cc, \<open>ErrorRangeEstimAccum\<close> and the loop in \<open>main\<close>)\<close>

text \<open>\<open>ErrorRangeEstimAccum::operator()\<close>: the accumulator state is the vector \<open>m_vals\<close>.\<close>

definition ErrorRangeEstimAccum_call :: "real list \<Rightarrow> real \<Rightarrow> real list" where
  "ErrorRangeEstimAccum_call m_vals v = (if v > 0 then m_vals @ [v] else m_vals)"

text \<open>\<open>for_each_pixel\<close> applied to a fresh accumulator: every sample is passed to
  \<open>operator()\<close> in turn.\<close>

definition for_each_pixel :: "real list \<Rightarrow> real list" where
  "for_each_pixel samples = foldl ErrorRangeEstimAccum_call [] samples"

text \<open>\<open>ErrorRangeEstimAccum::value\<close>. The parameter pair is \<open>remove_outliers_params\<close>
  (percentile, factor).\<close>

definition ErrorRangeEstimAccum_value :: "real list \<Rightarrow> real \<times> real \<Rightarrow> error + real" where
  "ErrorRangeEstimAccum_value m_vals remove_outliers_params =
     (if m_vals = [] then Inl ArgumentErr
      else
        let sorted_vals = sort m_vals;
            len = int (length sorted_vals);
            pct = fst remove_outliers_params / 100;
            factor = snd remove_outliers_params
        in case double_to_int (pct * real_of_int len) of
             None \<Rightarrow> Inl UndefinedBehaviour
           | Some t \<Rightarrow>
               let k = min (len - 1) t
               in if k < 0 then Inl UndefinedBehaviour
                  else Inr (sorted_vals ! nat k * factor * 4))"

text \<open>An image of scalar errors: its extent and its pixel function \<open>img(col, row)\<close>.\<close>

record error_image =
  ei_cols :: int
  ei_rows :: int
  ei_pixel :: "int \<Rightarrow> int \<Rightarrow> real"

text \<open>The pixels visited by \<open>for_each_pixel(subsample(img, amt), ...)\<close>: the subsampled
  view has \<open>1 + (cols - 1) / amt\<close> columns and \<open>1 + (rows - 1) / amt\<close> rows, and its
  pixel \<open>(c, r)\<close> is pixel \<open>(c * amt, r * amt)\<close> of the image; rows are visited in turn.\<close>

definition subsample_pixels :: "error_image \<Rightarrow> int \<Rightarrow> real list" where
  "subsample_pixels img amt =
     concat (map (\<lambda>r. map (\<lambda>c. ei_pixel img (c * amt) (r * amt))
                            [0 ..  c_div (ei_cols img - 1) amt])
                 [0 .. c_div (ei_rows img - 1) amt])"

definition norm_2_Vector2 :: "real \<Rightarrow> real \<Rightarrow> real" where
  "norm_2_Vector2 x y = sqrt (x * x + y * y)"

text \<open>The sampling loop of \<open>main\<close>, \<open>for (int count = 7; count <= 18; count++)\<close>, over
  the remaining values of \<open>count\<close>. The subsampling step is computed from the extent of
  the point image (\<open>point_cols\<close>, \<open>point_rows\<close>) and applied to the error image. The
  result is the pair \<open>(success, estim_max_error)\<close>; \<open>estim_max_error\<close> starts at \<open>0.0\<close>.\<close>

fun estimation_loop :: "int \<Rightarrow> int \<Rightarrow> error_image \<Rightarrow> real \<times> real \<Rightarrow> nat list \<Rightarrow> error + (bool \<times> real)" where
  "estimation_loop point_cols point_rows img params [] = Inr (False, 0)"
| "estimation_loop point_cols point_rows img params (count # rest) =
     (let sample = (2 :: real) ^ count
      in case double_to_int (norm_2_Vector2 (real_of_int point_cols) (real_of_int point_rows) / sample) of
           None \<Rightarrow> Inl UndefinedBehaviour
         | Some a \<Rightarrow>
             let subsample_amt = (if a < 1 then 1 else a);
                 m_vals = for_each_pixel (subsample_pixels img subsample_amt)
             in if int (length m_vals) > 0
                then (case ErrorRangeEstimAccum_value m_vals params of
                        Inl e \<Rightarrow> Inl e
                      | Inr v \<Rightarrow> Inr (True, v))
                else if subsample_amt = 1 then Inr (False, 0)
                else estimation_loop point_cols point_rows img params rest)"

definition estimate_max_error :: "int \<Rightarrow> int \<Rightarrow> error_image \<Rightarrow> real \<times> real \<Rightarrow> error + (bool \<times> real)" where
  "estimate_max_error point_cols point_rows img params =
     estimation_loop point_cols point_rows img params [7 ..< 19]"

section \<open>Point-cloud composite (PointUtils.cc, \<open>LasOrCsvToTif_Class\<close>)\<close>

text \<open>The image extents computed by the constructor. The reader enters through its
  point count \<open>m_num_points\<close>, a 64-bit unsigned value.\<close>

record LasOrCsvToTif_Class =
  m_rows :: int
  m_cols :: int
  m_block_size :: int

text \<open>\<open>double(num_points)\<close>: exact up to \<open>2^53\<close>; larger counts would be rounded.\<close>

definition uint64_to_double :: "int \<Rightarrow> real option" where
  "uint64_to_double n = (if n \<le> 2 ^ 53 then Some (real_of_int n) else None)"

text \<open>The constructor. \<open>ceil\<close> of a quotient of two integers below \<open>2^53\<close> is exact in
  \<open>double\<close>, so it is the ceiling of the real quotient; each \<open>(int)\<close> cast and each
  \<open>int\<close> product must fit 32 bits.\<close>

definition LasOrCsvToTif_Class_ctor :: "int \<Rightarrow> int \<Rightarrow> int \<Rightarrow> int \<Rightarrow> error + LasOrCsvToTif_Class" where
  "LasOrCsvToTif_Class_ctor num_points num_rows tile_len block_size =
     (if tile_len = 0 then Inl UndefinedBehaviour
      else case double_to_int (real_of_int \<lceil>real_of_int num_rows / real_of_int tile_len\<rceil>) of
        None \<Rightarrow> Inl UndefinedBehaviour
      | Some t1 \<Rightarrow>
          let num_row_tiles = max 1 t1
          in case int_mul tile_len num_row_tiles of
               None \<Rightarrow> Inl UndefinedBehaviour
             | Some rows \<Rightarrow>
                 (case uint64_to_double num_points of
                    None \<Rightarrow> Inl Inexact
                  | Some np \<Rightarrow>
                      (case double_to_int (real_of_int \<lceil>np / real_of_int rows\<rceil>) of
                         None \<Rightarrow> Inl UndefinedBehaviour
                       | Some points_per_row \<Rightarrow>
                           (case double_to_int (real_of_int \<lceil>real_of_int points_per_row / real_of_int tile_len\<rceil>) of
                              None \<Rightarrow> Inl UndefinedBehaviour
                            | Some t2 \<Rightarrow>
                                let num_col_tiles = max 1 t2
                                in case int_mul tile_len num_col_tiles of
                                     None \<Rightarrow> Inl UndefinedBehaviour
                                   | Some cols \<Rightarrow>
                                       Inr \<lparr>m_rows = rows, m_cols = cols, m_block_size = block_size\<rparr>))))"

definition rows :: "LasOrCsvToTif_Class \<Rightarrow> int" where
  "rows v = m_rows v"

definition cols :: "LasOrCsvToTif_Class \<Rightarrow> int" where
  "cols v = m_cols v"

section \<open>Hole filler (point2dem.cc, \<open>FillNoDataWithAvg\<close>)\<close>

text \<open>A masked pixel: a value and a validity flag. An image view: its extent and its
  pixel function \<open>img(col, row)\<close>.\<close>

datatype PixelMask = PixelMask (child: real) (is_valid: bool)

record ImageView =
  iv_cols :: int
  iv_rows :: int
  iv_pixel :: "int \<Rightarrow> int \<Rightarrow> PixelMask"

record FillNoDataWithAvg =
  m_img :: ImageView
  m_kernel_size :: int

text \<open>The constructor asserts an odd and positive kernel size.\<close>

definition FillNoDataWithAvg_ctor :: "ImageView \<Rightarrow> int \<Rightarrow> error + FillNoDataWithAvg" where
  "FillNoDataWithAvg_ctor img kernel_size =
     (if c_rem kernel_size 2 = 1 \<and> kernel_size > 0
      then Inr \<lparr>m_img = img, m_kernel_size = kernel_size\<rparr>
      else Inl ArgumentErr)"

text \<open>The body of the two nested loops of \<open>operator()\<close>: an invalid pixel is skipped, a
  valid one is added to \<open>val\<close> and counted in \<open>nvalid\<close>.\<close>

definition window_step :: "ImageView \<Rightarrow> int \<Rightarrow> int \<Rightarrow> real \<times> int \<Rightarrow> real \<times> int" where
  "window_step img c r acc =
     (if \<not> is_valid (iv_pixel img c r) then acc
      else (fst acc + child (iv_pixel img c r), snd acc + 1))"

text \<open>\<open>operator()(i, j)\<close>. The accumulator \<open>val\<close> starts as a valid pixel of value 0.\<close>

definition FillNoDataWithAvg_call :: "FillNoDataWithAvg \<Rightarrow> int \<Rightarrow> int \<Rightarrow> PixelMask" where
  "FillNoDataWithAvg_call f i j =
     (let img = m_img f in
      if is_valid (iv_pixel img i j) then iv_pixel img i j
      else
        let c0 = i; r0 = j;
            k2 = c_div (m_kernel_size f) 2; nc = iv_cols img; nr = iv_rows img;
            acc = fold (\<lambda>c. fold (\<lambda>r. window_step img c r) [max 0 (r0 - k2) .. min (nr - 1) (r0 + k2)])
                       [max 0 (c0 - k2) .. min (nc - 1) (c0 + k2)] (0, 0);
            val = fst acc; nvalid = snd acc
        in if nvalid = 0 then iv_pixel img i j
           else PixelMask (val / real_of_int nvalid) True)"

text \<open>The valid cells of the \<open>k\<close>-by-\<open>k\<close> window centred on \<open>(i, j)\<close>, clipped to the
  raster.\<close>

definition window :: "ImageView \<Rightarrow> int \<Rightarrow> int \<Rightarrow> int \<Rightarrow> (int \<times> int) set" where
  "window img k i j =
     {(c, r). max 0 (i - k div 2) \<le> c \<and> c \<le> min (iv_cols img - 1) (i + k div 2)
            \<and> max 0 (j - k div 2) \<le> r \<and> r \<le> min (iv_rows img - 1) (j + k div 2)
            \<and> is_valid (iv_pixel img c r)}"

text \<open>Scenario D: a 3-by-3 raster whose centre is nodata and whose 8 other cells are
  valid with value 10.\<close>

definition scenario_D :: ImageView where
  "scenario_D = \<lparr>iv_cols = 3, iv_rows = 3,
      iv_pixel = (\<lambda>c r. if c = 1 \<and> r = 1 then PixelMask 0 False else PixelMask 10 True)\<rparr>"

section \<open>Text point sources (PointUtils.cc, \<open>CsvConv\<close> and \<open>CsvReader\<close>)\<close>

subsection \<open>Data\<close>

text \<open>\<open>vw::Vector3\<close>: three doubles. An index outside \<open>0..2\<close> is outside the object.\<close>

datatype Vector3 = Vector3 real real real

fun vec_get :: "Vector3 \<Rightarrow> int \<Rightarrow> real option" where
  "vec_get (Vector3 x y z) i =
     (if i = 0 then Some x else if i = 1 then Some y else if i = 2 then Some z else None)"

fun vec_set :: "Vector3 \<Rightarrow> int \<Rightarrow> real \<Rightarrow> Vector3 option" where
  "vec_set (Vector3 x y z) i v =
     (if i = 0 then Some (Vector3 v y z) else if i = 1 then Some (Vector3 x v z)
      else if i = 2 then Some (Vector3 x y v) else None)"

fun norm_2 :: "Vector3 \<Rightarrow> real" where
  "norm_2 (Vector3 x y z) = sqrt (x * x + y * y + z * z)"

fun vec_scale :: "real \<Rightarrow> Vector3 \<Rightarrow> Vector3" where
  "vec_scale s (Vector3 x y z) = Vector3 (s * x) (s * y) (s * z)"

fun vec_div :: "Vector3 \<Rightarrow> real \<Rightarrow> Vector3" where
  "vec_div (Vector3 x y z) s = Vector3 (x / s) (y / s) (z / s)"

datatype CsvFormat = XYZ | HEIGHT_LAT_LON | LAT_LON_RADIUS_M | LAT_LON_RADIUS_KM | EASTING_HEIGHT_NORTHING

text \<open>A \<open>std::map\<close> is kept as an association list in ascending key order, the order
  in which the code iterates over it. \<open>map_assign k v m\<close> is \<open>m[k] = v\<close>.\<close>

fun map_assign :: "'k :: linorder \<Rightarrow> 'v \<Rightarrow> ('k \<times> 'v) list \<Rightarrow> ('k \<times> 'v) list" where
  "map_assign k v [] = [(k, v)]"
| "map_assign k v ((k', v') # m) =
     (if k < k' then (k, v) # (k', v') # m
      else if k = k' then (k, v) # m
      else (k', v') # map_assign k v m)"

record CsvConv =
  name2col :: "(string \<times> int) list"
  col2name :: "(int \<times> string) list"
  col2sort :: "(int \<times> int) list"
  csv_format_str :: string
  csv_proj4_str :: string
  format :: CsvFormat
  utm_zone :: int
  utm_north :: bool
  num_targets :: int

record CsvRecord =
  point_data :: Vector3
  file' :: string

text \<open>The part of \<open>vw::cartography::GeoReference\<close> (an external library) that the
  conversions call: the datum's two conversions between geodetic
  (longitude, latitude, height) and Cartesian coordinates, and the planar projection in
  both directions.\<close>

record GeoReference =
  geodetic_to_cartesian :: "Vector3 \<Rightarrow> Vector3"
  cartesian_to_geodetic :: "Vector3 \<Rightarrow> Vector3"
  point_to_lonlat :: "real \<times> real \<Rightarrow> real \<times> real"
  lonlat_to_point :: "real \<times> real \<Rightarrow> real \<times> real"

subsection \<open>Characters and streams\<close>

definition isspace :: "char \<Rightarrow> bool" where
  "isspace c = (c \<in> set [CHR 0x20, CHR 0x09, CHR 0x0A, CHR 0x0B, CHR 0x0C, CHR 0x0D])"

definition isdigit :: "char \<Rightarrow> bool" where
  "isdigit c = (c \<in> set ''0123456789'')"

text \<open>\<open>boost::algorithm::to_lower\<close> in the classic locale.\<close>

definition to_lower :: "char \<Rightarrow> char" where
  "to_lower c =
     (case map_of (zip ''ABCDEFGHIJKLMNOPQRSTUVWXYZ'' ''abcdefghijklmnopqrstuvwxyz'') c of
        None \<Rightarrow> c
      | Some l \<Rightarrow> l)"

definition digit_value :: "char \<Rightarrow> int" where
  "digit_value c = int (of_char c) - 48"

definition decimal :: "string \<Rightarrow> int" where
  "decimal ds = foldl (\<lambda>n c. 10 * n + digit_value c) 0 ds"

text \<open>\<open>std::string::find(pat) != npos\<close>.\<close>

fun str_contains :: "string \<Rightarrow> string \<Rightarrow> bool" where
  "str_contains pat [] = (pat = [])"
| "str_contains pat (c # cs) = (take (length pat) (c # cs) = pat \<or> str_contains pat cs)"

text \<open>A string stream is its unread suffix. While no extraction has failed, the stream
  is \<open>good()\<close> exactly when that suffix is not empty: an extraction that stops at the
  end of the input sets \<open>eofbit\<close>, one that stops at a character does not.

  \<open>is >> str\<close>: skip white space, then read up to the next white space; fails at the
  end of the input.\<close>

definition read_word :: "string \<Rightarrow> (string \<times> string) option" where
  "read_word s =
     (let r = dropWhile isspace s
      in if r = [] then None
         else Some (takeWhile (\<lambda>c. \<not> isspace c) r, dropWhile (\<lambda>c. \<not> isspace c) r))"

text \<open>\<open>is >> col\<close> for an \<open>int\<close>: skip white space, an optional sign, then decimal digits;
  fails without a digit or when the value does not fit an \<open>int\<close>.\<close>

definition read_int :: "string \<Rightarrow> (int \<times> string) option" where
  "read_int s =
     (let r = dropWhile isspace s;
          neg = (r \<noteq> [] \<and> hd r = CHR ''-'');
          r1 = (if r \<noteq> [] \<and> (hd r = CHR ''-'' \<or> hd r = CHR ''+'') then tl r else r);
          ds = takeWhile isdigit r1;
          v = (if neg then - decimal ds else decimal ds)
      in if ds = [] \<or> v < INT_MIN \<or> INT_MAX < v then None
         else Some (v, dropWhile isdigit r1))"

text \<open>\<open>getline(stream, line, '\n')\<close> on the unread part of a file: fails only when
  nothing is left; the newline is consumed and not stored.\<close>

definition getline :: "string \<Rightarrow> (string \<times> string) option" where
  "getline s =
     (if s = [] then None
      else Some (takeWhile (\<lambda>c. c \<noteq> CHR 0x0A) s, drop 1 (dropWhile (\<lambda>c. c \<noteq> CHR 0x0A) s)))"

subsection \<open>\<open>parse_utm_str\<close>\<close>

definition parse_utm_str :: "string \<Rightarrow> error + (int \<times> bool)" where
  "parse_utm_str utm =
     (let a = takeWhile isdigit utm;
          b = take 1 (dropWhile isdigit utm)
      in if a = [] \<or> b = [] then Inl ArgumentErr
         else if INT_MAX < decimal a then Inl UndefinedBehaviour
         else if b = ''n'' \<or> b = ''N'' then Inr (decimal a, True)
         else if b = ''s'' \<or> b = ''S'' then Inr (decimal a, False)
         else Inl ArgumentErr)"

subsection \<open>\<open>CsvConv::parse_csv_format\<close>\<close>

definition get_sorted_index_for_name :: "string \<Rightarrow> error + int" where
  "get_sorted_index_for_name name =
     (if name = ''file'' then Inr 3
      else if name = ''lon'' then Inr 0
      else if name = ''lat'' then Inr 1
      else if name = ''radius_m'' then Inr 2
      else if name = ''radius_km'' then Inr 2
      else if name = ''x'' then Inr 0
      else if name = ''y'' then Inr 1
      else if name = ''z'' then Inr 2
      else if name = ''easting'' then Inr 0
      else if name = ''northing'' then Inr 1
      else if name = ''height_above_datum'' then Inr 2
      else Inl ArgumentErr)"

text \<open>The loop \<open>while (is.good())\<close> that reads the pairs of a column index and a name.\<close>

function read_columns :: "string \<Rightarrow> CsvConv \<Rightarrow> error + CsvConv" where
  "read_columns is conv =
     (if is = [] then Inr conv
      else case read_int is of
        None \<Rightarrow> Inl ArgumentErr
      | Some (col1, is1) \<Rightarrow>
          (case read_word is1 of
             None \<Rightarrow> Inl ArgumentErr
           | Some (name, is2) \<Rightarrow>
               if col1 = INT_MIN then Inl UndefinedBehaviour
               else
                 let col = col1 - 1
                 in if col < 0 \<or> map_of (col2name conv) col \<noteq> None then Inl ArgumentErr
                    else read_columns is2
                           (conv\<lparr>name2col := map_assign name col (name2col conv),
                                 col2name := map_assign col name (col2name conv)\<rparr>)))"
  by pat_completeness auto
termination
proof (relation "measure (\<lambda>(is, conv). length is)")
  show "wf (measure (\<lambda>(is, conv). length is))" by simp
next
  fix "is" :: string and conv :: CsvConv and x2 col1 is1 y2 name is2 col
  assume "is \<noteq> []" and ri: "read_int is = Some x2" and x2: "(col1, is1) = x2"
    and rw: "read_word is1 = Some y2" and y2: "(name, is2) = y2"
  let ?r = "dropWhile isspace is"
  let ?r1 = "if ?r \<noteq> [] \<and> (hd ?r = CHR ''-'' \<or> hd ?r = CHR ''+'') then tl ?r else ?r"
  from ri x2 have ds: "takeWhile isdigit ?r1 \<noteq> []" and is1: "is1 = dropWhile isdigit ?r1"
    by (auto simp: read_int_def Let_def split: if_splits)
  have "length ?r1 = length (takeWhile isdigit ?r1) + length (dropWhile isdigit ?r1)"
    by (metis length_append takeWhile_dropWhile_id)
  with ds is1 have "length is1 < length ?r1" by simp
  moreover have "length ?r1 \<le> length ?r" by simp
  moreover have "length ?r \<le> length is" by (rule length_dropWhile_le)
  ultimately have a: "length is1 < length is" by linarith
  from rw y2 have "is2 = dropWhile (\<lambda>c. \<not> isspace c) (dropWhile isspace is1)"
    by (auto simp: read_word_def Let_def split: if_splits)
  then have "length is2 \<le> length is1"
    by (simp add: order_trans [OF length_dropWhile_le length_dropWhile_le])
  with a show "((is2, conv\<lparr>name2col := map_assign name col (name2col conv),
                           col2name := map_assign col name (col2name conv)\<rparr>), is, conv)
               \<in> measure (\<lambda>(is, conv). length is)"
    by simp
qed

declare read_columns.simps [simp del]

text \<open>The loop over \<open>name2col\<close> that fills \<open>sorted_names\<close> and \<open>col2sort\<close>. Writing
  \<open>sorted_names[index]\<close> past the end of the vector is undefined.\<close>

fun sort_names :: "(string \<times> int) list \<Rightarrow> string list \<Rightarrow> (int \<times> int) list
                   \<Rightarrow> error + (string list \<times> (int \<times> int) list)" where
  "sort_names [] sorted_names c2s = Inr (sorted_names, c2s)"
| "sort_names ((name, col) # rest) sorted_names c2s =
     (case get_sorted_index_for_name name of
        Inl e \<Rightarrow> Inl e
      | Inr index \<Rightarrow>
          if int (length sorted_names) \<le> index then Inl UndefinedBehaviour
          else sort_names rest (sorted_names[nat index := name])
                 (if index < 3 then map_assign col index c2s else c2s))"

definition select_format :: "string list \<Rightarrow> error + CsvFormat" where
  "select_format sorted_names =
     (if sorted_names ! 0 = ''x'' \<and> sorted_names ! 1 = ''y'' \<and> sorted_names ! 2 = ''z''
        then Inr XYZ
      else if sorted_names ! 0 = ''lon'' \<and> sorted_names ! 1 = ''lat'' \<and> sorted_names ! 2 = ''radius_m''
        then Inr LAT_LON_RADIUS_M
      else if sorted_names ! 0 = ''lon'' \<and> sorted_names ! 1 = ''lat'' \<and> sorted_names ! 2 = ''radius_km''
        then Inr LAT_LON_RADIUS_KM
      else if sorted_names ! 0 = ''lon'' \<and> sorted_names ! 1 = ''lat''
              \<and> sorted_names ! 2 = ''height_above_datum''
        then Inr HEIGHT_LAT_LON
      else if sorted_names ! 0 = ''easting'' \<and> sorted_names ! 1 = ''northing''
              \<and> sorted_names ! 2 = ''height_above_datum''
        then Inr EASTING_HEIGHT_NORTHING
      else Inl ArgumentErr)"

text \<open>The optional prefix \<open>utm:23N\<close>. The result is the stream left for the column
  loop and the object with the zone stored. When the second extraction fails \<open>str\<close>
  keeps its value \<open>utm\<close>.\<close>

definition read_utm_prefix :: "string \<Rightarrow> CsvConv \<Rightarrow> error + (string \<times> CsvConv)" where
  "read_utm_prefix local conv =
     (case read_word local of
        None \<Rightarrow> Inr (local, conv)
      | Some (str, is1) \<Rightarrow>
          if str = ''utm'' then
            (let (str2, is2) = (case read_word is1 of None \<Rightarrow> (''utm'', []) | Some p \<Rightarrow> p)
             in case parse_utm_str str2 of
                  Inl e \<Rightarrow> Inl e
                | Inr (zone, north) \<Rightarrow> Inr (is2, conv\<lparr>utm_zone := zone, utm_north := north\<rparr>))
          else Inr (local, conv))"

text \<open>\<open>parse_csv_format\<close>. The first argument is the default-constructed object
  \<open>asp::CsvConv()\<close> assigned to \<open>*this\<close>; its constructor is declared in a header, so
  the scalar fields it sets are a parameter, and its three maps are empty.\<close>

definition parse_csv_format :: "CsvConv \<Rightarrow> string \<Rightarrow> string \<Rightarrow> error + CsvConv" where
  "parse_csv_format dflt fmt_str proj4_str =
     (if str_contains ''D_MOON'' proj4_str \<or> str_contains ''D_MARS'' proj4_str then Inl ArgumentErr
      else
        let conv0 = dflt\<lparr>name2col := [], col2name := [], col2sort := [],
                         csv_format_str := fmt_str, csv_proj4_str := proj4_str\<rparr>;
            local0 = map to_lower fmt_str
        in if local0 = [] then Inr conv0
           else
             let local = map (\<lambda>c. if c = CHR '':'' \<or> c = CHR '','' then CHR '' '' else c) local0
             in case read_utm_prefix local conv0 of
                  Inl e \<Rightarrow> Inl e
                | Inr (is, conv1) \<Rightarrow>
                    (case read_columns is conv1 of
                       Inl e \<Rightarrow> Inl e
                     | Inr conv2 \<Rightarrow>
                         let n = int (length (name2col conv2))
                         in if n < 3 \<or> 4 < n then Inl ArgumentErr
                            else case sort_names (name2col conv2) (replicate (nat n) []) [] of
                                   Inl e \<Rightarrow> Inl e
                                 | Inr (sorted_names, c2s) \<Rightarrow>
                                     (case select_format sorted_names of
                                        Inl e \<Rightarrow> Inl e
                                      | Inr f \<Rightarrow>
                                          Inr (conv2\<lparr>num_targets := n, col2sort := c2s,
                                                      format := f\<rparr>))))"

subsection \<open>\<open>CsvConv::parse_csv_line\<close>\<close>

text \<open>\<open>line.c_str()\<close> ends at the first NUL character.\<close>

definition c_str :: "string \<Rightarrow> string" where
  "c_str s = takeWhile (\<lambda>c. c \<noteq> CHR 0x00) s"

definition bufSize :: nat where
  "bufSize = 2048"

text \<open>The successive results of \<open>strtok(ptr, sep)\<close> on a buffer: the maximal runs of
  characters that are not separators. The second argument is the token being read.\<close>

fun strtok_all :: "string \<Rightarrow> string \<Rightarrow> string \<Rightarrow> string list" where
  "strtok_all sep cur [] = (if cur = [] then [] else [cur])"
| "strtok_all sep cur (c # cs) =
     (if c \<in> set sep
      then (if cur = [] then strtok_all sep [] cs else cur # strtok_all sep [] cs)
      else strtok_all sep (cur @ [c]) cs)"

text \<open>The local variables of the column loop.\<close>

record line_state =
  values' :: CsvRecord
  num_floats_read :: int
  num_values_read :: int
  success :: bool

text \<open>The loop \<open>while (1)\<close> of \<open>parse_csv_line\<close>, over the tokens still to come;
  \<open>col_index\<close> is the column of the first of them. \<open>scan\<close> is
  \<open>sscanf(token, "%lg", &val)\<close> of the C library: it gives the returned flag and the
  content of \<open>val\<close> afterwards.\<close>

fun parse_tokens :: "(string \<Rightarrow> int \<times> real) \<Rightarrow> CsvConv \<Rightarrow> int \<Rightarrow> string list \<Rightarrow> line_state
                     \<Rightarrow> error + line_state" where
  "parse_tokens scan conv col_index [] st = Inr st"
| "parse_tokens scan conv col_index (token # rest) st =
     (if num_targets conv \<le> num_values_read st then Inr st
      else case map_of (col2name conv) col_index of
        None \<Rightarrow> parse_tokens scan conv (col_index + 1) rest st
      | Some name \<Rightarrow>
          if name = ''file''
          then parse_tokens scan conv (col_index + 1) rest
                 (st\<lparr>values' := (values' st)\<lparr>file' := token\<rparr>,
                     num_values_read := num_values_read st + 1\<rparr>)
          else
            let (flag, val) = scan token
            in if flag = 0 then Inr (st\<lparr>success := False\<rparr>)
               else case vec_set (point_data (values' st)) (num_floats_read st) val of
                      None \<Rightarrow> Inl UndefinedBehaviour
                    | Some pd \<Rightarrow>
                        parse_tokens scan conv (col_index + 1) rest
                          (st\<lparr>values' := (values' st)\<lparr>point_data := pd\<rparr>,
                              num_floats_read := num_floats_read st + 1,
                              num_values_read := num_values_read st + 1\<rparr>))"

text \<open>The state at the end of the column loop. \<open>sep\<close> is the separator set
  \<open>asp::csv_separator()\<close>, declared in a header. A line of \<open>bufSize\<close> characters or
  more leaves the buffer filled by \<open>strncpy\<close> without a terminator.\<close>

definition parse_csv_line_loop :: "(string \<Rightarrow> int \<times> real) \<Rightarrow> string \<Rightarrow> CsvConv \<Rightarrow> string
                                   \<Rightarrow> error + line_state" where
  "parse_csv_line_loop scan sep conv line =
     (if bufSize \<le> length (c_str line) then Inl UndefinedBehaviour
      else parse_tokens scan conv 0 (strtok_all sep [] (c_str line))
             \<lparr>values' = \<lparr>point_data = Vector3 0 0 0, file' = []\<rparr>,
              num_floats_read = 0, num_values_read = 0, success = True\<rparr>)"

text \<open>\<open>parse_csv_line(is_first_line, success, line)\<close>: the result is the new value of
  \<open>is_first_line\<close>, the flag \<open>success\<close> and the record, or the \<open>IOErr\<close> thrown.\<close>

definition parse_csv_line :: "(string \<Rightarrow> int \<times> real) \<Rightarrow> string \<Rightarrow> CsvConv \<Rightarrow> bool \<Rightarrow> string
                              \<Rightarrow> error + (bool \<times> bool \<times> CsvRecord)" where
  "parse_csv_line scan sep conv is_first_line line =
     (case parse_csv_line_loop scan sep conv line of
        Inl e \<Rightarrow> Inl e
      | Inr st \<Rightarrow>
          let ok = (if num_values_read st \<noteq> num_targets conv then False else success st)
          in if \<not> ok \<and> \<not> is_first_line then Inl IOErr
             else Inr (False, ok, values' st))"

subsection \<open>Conversions between a record and Cartesian coordinates\<close>

text \<open>The loop of \<open>sort_parsed_vector3\<close> over \<open>col2sort\<close>, with its counter.\<close>

fun sort_parsed_loop :: "(int \<times> int) list \<Rightarrow> Vector3 \<Rightarrow> int \<Rightarrow> Vector3 \<Rightarrow> error + Vector3" where
  "sort_parsed_loop [] pd count ordered_csv = Inr ordered_csv"
| "sort_parsed_loop ((col, srt) # rest) pd count ordered_csv =
     (if srt < 3
      then (case vec_get pd count of
              None \<Rightarrow> Inl UndefinedBehaviour
            | Some v \<Rightarrow>
                (case vec_set ordered_csv srt v of
                   None \<Rightarrow> Inl UndefinedBehaviour
                 | Some o' \<Rightarrow> sort_parsed_loop rest pd (count + 1) o'))
      else sort_parsed_loop rest pd (count + 1) ordered_csv)"

definition sort_parsed_vector3 :: "CsvConv \<Rightarrow> CsvRecord \<Rightarrow> error + Vector3" where
  "sort_parsed_vector3 conv csv = sort_parsed_loop (col2sort conv) (point_data csv) 0 (Vector3 0 0 0)"



text \<open>The branch shared by the conversions for the two radius schemes: the point of
  zero height at the record's longitude and latitude, rescaled to the record's radius.\<close>

definition radius_to_cartesian :: "CsvConv \<Rightarrow> Vector3 \<Rightarrow> GeoReference \<Rightarrow> error + Vector3" where
  "radius_to_cartesian conv ordered_csv geo =
     (case ordered_csv of
        Vector3 lon lat r \<Rightarrow>
          let r_m = (if format conv = LAT_LON_RADIUS_KM then r * 1000 else r);
              tmp = Vector3 lon lat 0;
              xyz = geodetic_to_cartesian geo tmp
          in if norm_2 xyz = 0 then Inl NotANumber
             else Inr (vec_scale r_m (vec_div xyz (norm_2 xyz))))"


definition csv_to_cartesian_or_point_height :: "CsvConv \<Rightarrow> CsvRecord \<Rightarrow> GeoReference \<Rightarrow> bool
                                                \<Rightarrow> error + Vector3" where
  "csv_to_cartesian_or_point_height conv csv geo return_point_height =
     (case sort_parsed_vector3 conv csv of
        Inl e \<Rightarrow> Inl e
      | Inr ordered_csv \<Rightarrow>
          if format conv = XYZ then Inr ordered_csv
          else if format conv = EASTING_HEIGHT_NORTHING
          then (case ordered_csv of
                  Vector3 e n h \<Rightarrow>
                    if return_point_height then Inr (Vector3 e n h)
                    else
                      let ll = point_to_lonlat geo (e, n);
                          llh = Vector3 (fst ll) (snd ll) h
                      in Inr (geodetic_to_cartesian geo llh))
          else if format conv = HEIGHT_LAT_LON
          then (if return_point_height then Inr ordered_csv
                else Inr (geodetic_to_cartesian geo ordered_csv))
          else (case radius_to_cartesian conv ordered_csv geo of
                  Inl e \<Rightarrow> Inl e
                | Inr xyz \<Rightarrow>
                    if return_point_height then Inr (cartesian_to_geodetic geo xyz)
                    else Inr xyz))"




subsection \<open>\<open>csv_file_size\<close>\<close>

definition is_valid_csv_line :: "string \<Rightarrow> bool" where
  "is_valid_csv_line line = (line \<noteq> [] \<and> line ! 0 \<noteq> CHR ''#'')"

text \<open>The loop \<open>while (getline(fh, line, '\n'))\<close> with the counter \<open>num_total_points\<close>,
  an \<open>int\<close>.\<close>

function count_valid_lines :: "string \<Rightarrow> int \<Rightarrow> error + int" where
  "count_valid_lines fh num_total_points =
     (case getline fh of
        None \<Rightarrow> Inr num_total_points
      | Some (line, rest) \<Rightarrow>
          if \<not> is_valid_csv_line line then count_valid_lines rest num_total_points
          else if num_total_points = INT_MAX then Inl UndefinedBehaviour
          else count_valid_lines rest (num_total_points + 1))"
  by pat_completeness auto
termination
proof (relation "measure (\<lambda>(fh, n). length fh)")
  show "wf (measure (\<lambda>(fh, n). length fh))" by simp
next
  fix fh :: string and n :: int and x2 line rest
  assume g: "getline fh = Some x2" and x: "(line, rest) = x2"
  then have ne: "fh \<noteq> []" and r: "rest = drop 1 (dropWhile (\<lambda>c. c \<noteq> CHR 0x0A) fh)"
    by (auto simp: getline_def split: if_splits)
  have "length (dropWhile (\<lambda>c. c \<noteq> CHR 0x0A) fh) \<le> length fh"
    by (rule length_dropWhile_le)
  with ne r have "length rest < length fh"
    by (cases "dropWhile (\<lambda>c. c \<noteq> CHR 0x0A) fh") simp_all
  then show "((rest, n), fh, n) \<in> measure (\<lambda>(fh, n). length fh)" by simp
  then show "((rest, n + 1), fh, n) \<in> measure (\<lambda>(fh, n). length fh)" by simp
qed

declare count_valid_lines.simps [simp del]

text \<open>\<open>csv_file_size\<close>; the file is its content, or \<open>None\<close> when it cannot be opened.\<close>

definition csv_file_size :: "string option \<Rightarrow> error + int" where
  "csv_file_size f =
     (case f of
        None \<Rightarrow> Inl IOErr
      | Some content \<Rightarrow> count_valid_lines content 0)"

text \<open>The lines of a file as \<open>getline\<close> delivers them.\<close>

function file_lines :: "string \<Rightarrow> string list" where
  "file_lines fh =
     (case getline fh of
        None \<Rightarrow> []
      | Some (line, rest) \<Rightarrow> line # file_lines rest)"
  by pat_completeness auto
termination
proof (relation "measure length")
  show "wf (measure length)" by simp
next
  fix fh :: string and x2 line rest
  assume g: "getline fh = Some x2" and x: "(line, rest) = x2"
  then have ne: "fh \<noteq> []" and r: "rest = drop 1 (dropWhile (\<lambda>c. c \<noteq> CHR 0x0A) fh)"
    by (auto simp: getline_def split: if_splits)
  have "length (dropWhile (\<lambda>c. c \<noteq> CHR 0x0A) fh) \<le> length fh"
    by (rule length_dropWhile_le)
  with ne r have "length rest < length fh"
    by (cases "dropWhile (\<lambda>c. c \<noteq> CHR 0x0A) fh") simp_all
  then show "(rest, fh) \<in> measure length" by simp
qed

declare file_lines.simps [simp del]

subsection \<open>\<open>CsvReader\<close>\<close>

text \<open>The reader's members, those of \<open>BaseReader\<close> first; \<open>m_ifs\<close> is the unread part
  of the file.\<close>

record CsvReader =
  m_num_points :: int
  m_has_georef :: bool
  m_csv_conv :: CsvConv
  m_georef :: GeoReference
  m_is_first_line :: bool
  m_has_valid_point :: bool
  m_curr_point :: Vector3
  m_ifs :: string

text \<open>The loop \<open>for (int i = 0; i < 2; i++)\<close> of \<open>ReadNextPoint\<close>, over the number of
  iterations left. The result \<open>None\<close> is the return at the end of the file; \<open>Some vals\<close>
  leaves the loop with the record \<open>vals\<close>.\<close>

fun read_attempts :: "(string \<Rightarrow> int \<times> real) \<Rightarrow> string \<Rightarrow> nat \<Rightarrow> CsvReader \<Rightarrow> CsvRecord
                      \<Rightarrow> error + (CsvReader \<times> CsvRecord option)" where
  "read_attempts scan sep 0 rd vals = Inr (rd, Some vals)"
| "read_attempts scan sep (Suc n) rd vals =
     (case getline (m_ifs rd) of
        None \<Rightarrow> Inr (rd\<lparr>m_has_valid_point := False\<rparr>, None)
      | Some (line, rest) \<Rightarrow>
          (case parse_csv_line scan sep (m_csv_conv rd) (m_is_first_line rd) line of
             Inl e \<Rightarrow> Inl e
           | Inr (first, ok, vals') \<Rightarrow>
               let rd' = rd\<lparr>m_ifs := rest, m_has_valid_point := True, m_is_first_line := first\<rparr>
               in if ok then Inr (rd', Some vals')
                  else read_attempts scan sep n rd' vals'))"

text \<open>\<open>CsvReader::ReadNextPoint\<close>: the returned flag and the reader afterwards, or the
  exception thrown.\<close>

definition ReadNextPoint :: "(string \<Rightarrow> int \<times> real) \<Rightarrow> string \<Rightarrow> CsvReader \<Rightarrow> error + (bool \<times> CsvReader)" where
  "ReadNextPoint scan sep rd =
     (case read_attempts scan sep 2 rd \<lparr>point_data = Vector3 0 0 0, file' = []\<rparr> of
        Inl e \<Rightarrow> Inl e
      | Inr (rd', None) \<Rightarrow> Inr (False, rd')
      | Inr (rd', Some vals) \<Rightarrow>
          (case csv_to_cartesian_or_point_height (m_csv_conv rd') vals (m_georef rd') True of
             Inl e \<Rightarrow> Inl e
           | Inr p \<Rightarrow> Inr (m_has_valid_point rd', rd'\<lparr>m_curr_point := p\<rparr>)))"

text \<open>The constructor of \<open>CsvReader\<close>; the file is its content, or \<open>None\<close> when it
  cannot be opened.\<close>

definition CsvReader_ctor :: "string option \<Rightarrow> CsvConv \<Rightarrow> GeoReference \<Rightarrow> error + CsvReader" where
  "CsvReader_ctor csv_file csv_conv georef =
     (case csv_file_size csv_file of
        Inl e \<Rightarrow> Inl e
      | Inr n \<Rightarrow>
          (case csv_file of
             None \<Rightarrow> Inl IOErr
           | Some content \<Rightarrow>
               if csv_format_str csv_conv = [] then Inl ArgumentErr
               else Inr \<lparr>m_num_points = n, m_has_georef = (format csv_conv \<noteq> XYZ),
                         m_csv_conv = csv_conv, m_georef = georef, m_is_first_line = True,
                         m_has_valid_point = False, m_curr_point = Vector3 0 0 0,
                         m_ifs = content\<rparr>))"

subsection \<open>A scanner for decimal numbers\<close>

text \<open>The behaviour of \<open>sscanf(token, "%lg", &val)\<close> on decimal input: optional white
  space and sign, digits with an optional fraction, an optional exponent. The flag is
  \<open>1\<close> after a conversion, \<open>0\<close> when the input does not start a number and \<open>-1\<close> (EOF)
  when it ends before one. The spellings of infinity and NaN and hexadecimal
  numbers, which have no real value or another syntax, are not covered. It serves as the
  scanner in the concrete scenarios; the general theorems hold for any scanner.\<close>

definition scan_exponent :: "string \<Rightarrow> int" where
  "scan_exponent s =
     (case s of
        [] \<Rightarrow> 0
      | c # t \<Rightarrow>
          if c = CHR ''e'' \<or> c = CHR ''E''
          then (let neg = (t \<noteq> [] \<and> hd t = CHR ''-'');
                    t1 = (if t \<noteq> [] \<and> (hd t = CHR ''-'' \<or> hd t = CHR ''+'') then tl t else t);
                    ds = takeWhile isdigit t1
                in if ds = [] then 0 else if neg then - decimal ds else decimal ds)
          else 0)"

definition scan_decimal :: "string \<Rightarrow> int \<times> real" where
  "scan_decimal token =
     (let r = dropWhile isspace token;
          neg = (r \<noteq> [] \<and> hd r = CHR ''-'');
          r1 = (if r \<noteq> [] \<and> (hd r = CHR ''-'' \<or> hd r = CHR ''+'') then tl r else r);
          ip = takeWhile isdigit r1;
          r2 = dropWhile isdigit r1;
          fp = (if r2 \<noteq> [] \<and> hd r2 = CHR ''.'' then takeWhile isdigit (tl r2) else []);
          r3 = (if r2 \<noteq> [] \<and> hd r2 = CHR ''.'' then dropWhile isdigit (tl r2) else r2);
          m = real_of_int (decimal ip) + real_of_int (decimal fp) / 10 ^ length fp;
          e = scan_exponent r3;
          v = (if 0 \<le> e then m * 10 ^ nat e else m / 10 ^ nat (- e))
      in if r = [] then (- 1, 0)
         else if ip = [] \<and> fp = [] then (0, 0)
         else (1, if neg then - v else v))"

section \<open>Notions used to state the properties of the text parser\<close>




text \<open>A line fails to parse: \<open>parse_csv_line\<close>, called on it as on a first line (where
  it does not throw), sets \<open>success\<close> to false.\<close>

definition parse_fails :: "(string \<Rightarrow> int \<times> real) \<Rightarrow> string \<Rightarrow> CsvConv \<Rightarrow> string \<Rightarrow> bool" where
  "parse_fails scan sep conv line =
     (case parse_csv_line scan sep conv True line of
        Inl e \<Rightarrow> False
      | Inr (first, ok, vals) \<Rightarrow> \<not> ok)"

text \<open>A default-constructed \<open>CsvConv\<close> for the concrete scenarios. Its scalar members are
  overwritten by \<open>parse_csv_format\<close> or not read by the functions above.\<close>

definition CsvConv_default :: CsvConv where
  "CsvConv_default =
     \<lparr>name2col = [], col2name = [], col2sort = [], csv_format_str = [], csv_proj4_str = [],
      format = XYZ, utm_zone = - 1, utm_north = False, num_targets = 0\<rparr>"

text \<open>The object built by \<open>parse_csv_format\<close> from the descriptor \<open>1:x 2:y 3:z\<close>.\<close>

definition conv_xyz :: CsvConv where
  "conv_xyz =
     \<lparr>name2col = [(''x'', 0), (''y'', 1), (''z'', 2)],
      col2name = [(0, ''x''), (1, ''y''), (2, ''z'')],
      col2sort = [(0, 0), (1, 1), (2, 2)],
      csv_format_str = ''1:x 2:y 3:z'', csv_proj4_str = [],
      format = XYZ, utm_zone = - 1, utm_north = False, num_targets = 3\<rparr>"

text \<open>A geodetic reference whose conversions are the identity, for scenarios in which
  no conversion is called.\<close>

definition geo_unused :: GeoReference where
  "geo_unused =
     \<lparr>geodetic_to_cartesian = (\<lambda>v. v), cartesian_to_geodetic = (\<lambda>v. v),
      point_to_lonlat = (\<lambda>p. p), lonlat_to_point = (\<lambda>p. p)\<rparr>"





section \<open>A spherical datum for the concrete scenarios\<close>




section \<open>Theorems: outlier estimator\<close>

lemma foldl_ErrorRangeEstimAccum_call:
  "foldl ErrorRangeEstimAccum_call acc samples = acc @ filter (\<lambda>v. 0 < v) samples"
  by (induction samples arbitrary: acc) (simp_all add: ErrorRangeEstimAccum_call_def)

lemma for_each_pixel_filter: "for_each_pixel samples = filter (\<lambda>v. 0 < v) samples"
  by (simp add: for_each_pixel_def foldl_ErrorRangeEstimAccum_call)

lemma double_to_int_floor:
  assumes "0 \<le> x" and "x \<le> real_of_int INT_MAX"
  shows "double_to_int x = Some \<lfloor>x\<rfloor>"
proof -
  have "0 \<le> \<lfloor>x\<rfloor>" using assms(1) by simp
  moreover have "\<lfloor>x\<rfloor> \<le> INT_MAX" using assms(2) by (simp add: floor_le_iff)
  ultimately show ?thesis using assms(1)
    by (simp add: double_to_int_def INT_MIN_def)
qed



lemma c_div_nonneg: "0 \<le> a \<Longrightarrow> 0 < b \<Longrightarrow> c_div a b = a div b"
  by (cases "a = 0") (simp_all add: c_div_def)

lemma int_div_times_le: "0 < (b :: int) \<Longrightarrow> a div b * b \<le> a"
  using pos_mod_sign [of b a] by (simp add: minus_mod_eq_div_mult [symmetric])

lemma set_subsample_pixels:
  assumes "0 < ei_cols img" "0 < ei_rows img" "1 \<le> amt"
  shows "set (subsample_pixels img amt) =
     (\<lambda>(c, r). ei_pixel img (c * amt) (r * amt)) `
        ({0 .. (ei_cols img - 1) div amt} \<times> {0 .. (ei_rows img - 1) div amt})"
  using assms by (auto simp: subsample_pixels_def c_div_nonneg)

lemma subsample_pixels_subset:
  assumes "0 < ei_cols img" "0 < ei_rows img" "1 \<le> amt"
  shows "set (subsample_pixels img amt) \<subseteq> set (subsample_pixels img 1)"
proof
  fix v assume "v \<in> set (subsample_pixels img amt)"
  then obtain c r where c: "0 \<le> c" "c \<le> (ei_cols img - 1) div amt"
    and r: "0 \<le> r" "r \<le> (ei_rows img - 1) div amt"
    and v: "v = ei_pixel img (c * amt) (r * amt)"
    using assms by (auto simp: set_subsample_pixels)
  have "c * amt \<le> (ei_cols img - 1) div amt * amt"
    using c assms(3) by (intro mult_right_mono) simp_all
  also have "\<dots> \<le> ei_cols img - 1"
    using assms(3) by (intro int_div_times_le) linarith
  finally have c': "c * amt \<le> ei_cols img - 1" .
  have "r * amt \<le> (ei_rows img - 1) div amt * amt"
    using r assms(3) by (intro mult_right_mono) simp_all
  also have "\<dots> \<le> ei_rows img - 1"
    using assms(3) by (intro int_div_times_le) linarith
  finally have r': "r * amt \<le> ei_rows img - 1" .
  have "0 \<le> c * amt" "0 \<le> r * amt" using c r assms(3) by simp_all
  with c' r' v show "v \<in> set (subsample_pixels img 1)"
    using assms by (auto simp: set_subsample_pixels)
qed

lemma for_each_pixel_empty_mono:
  assumes "for_each_pixel xs = []" "set ys \<subseteq> set xs"
  shows "for_each_pixel ys = []"
  using assms by (auto simp: for_each_pixel_filter filter_empty_conv)

lemma norm_2_Vector2_bound:
  assumes "0 \<le> x" "0 \<le> y"
  shows "0 \<le> norm_2_Vector2 x y" "norm_2_Vector2 x y \<le> x + y"
proof -
  show "0 \<le> norm_2_Vector2 x y" by (simp add: norm_2_Vector2_def)
  have "x * x + y * y \<le> (x + y)\<^sup>2"
    using assms by (simp add: power2_eq_square algebra_simps)
  then have "sqrt (x * x + y * y) \<le> sqrt ((x + y)\<^sup>2)"
    by (rule real_sqrt_le_mono)
  then show "norm_2_Vector2 x y \<le> x + y"
    using assms by (simp add: norm_2_Vector2_def)
qed

lemma subsample_amt_defined:
  assumes "0 \<le> point_cols" "point_cols \<le> INT_MAX" "0 \<le> point_rows" "point_rows \<le> INT_MAX"
    and "1 \<le> count"
  shows "\<exists>a. double_to_int (norm_2_Vector2 (real_of_int point_cols) (real_of_int point_rows) / 2 ^ count) = Some a \<and> 0 \<le> a"
proof -
  let ?n = "norm_2_Vector2 (real_of_int point_cols) (real_of_int point_rows)"
  have n0: "0 \<le> ?n" and nle: "?n \<le> real_of_int point_cols + real_of_int point_rows"
    using assms by (simp_all add: norm_2_Vector2_bound)
  have "real_of_int point_cols + real_of_int point_rows \<le> 2 * real_of_int INT_MAX"
    using assms by simp
  with nle have "?n \<le> 2 * real_of_int INT_MAX" by linarith
  moreover have "(2 :: real) \<le> 2 ^ count"
    using assms(5) by (metis self_le_ge2_pow  one_le_numeral power_increasing power_one_right)
  ultimately have "?n / 2 ^ count \<le> real_of_int INT_MAX"
    using n0 by (simp add: field_simps INT_MAX_def)
  moreover have "0 \<le> ?n / 2 ^ count" using n0 by simp
  ultimately have "double_to_int (?n / 2 ^ count) = Some \<lfloor>?n / 2 ^ count\<rfloor>"
    by (simp add: double_to_int_floor)
  moreover have "0 \<le> \<lfloor>?n / 2 ^ count\<rfloor>" using n0 by simp
  ultimately show ?thesis by blast
qed

lemma estimation_loop_no_samples:
  assumes "0 \<le> point_cols" "point_cols \<le> INT_MAX" "0 \<le> point_rows" "point_rows \<le> INT_MAX"
    and "0 < ei_cols img" "0 < ei_rows img"
    and "for_each_pixel (subsample_pixels img 1) = []"
    and "\<forall>count \<in> set counts. 1 \<le> count"
  shows "estimation_loop point_cols point_rows img params counts = Inr (False, 0)"
  using assms(8)
proof (induction counts)
  case Nil
  show ?case by simp
next
  case (Cons count rest)
  then have "1 \<le> count" by simp
  from subsample_amt_defined [OF assms(1-4) this]
  obtain a where a: "double_to_int (norm_2_Vector2 (real_of_int point_cols) (real_of_int point_rows) / 2 ^ count) = Some a"
    by blast
  define amt where "amt = (if a < 1 then 1 else a)"
  have "1 \<le> amt" by (simp add: amt_def)
  then have "for_each_pixel (subsample_pixels img amt) = []"
    using for_each_pixel_empty_mono [OF assms(7) subsample_pixels_subset] assms(5,6) by blast
  moreover have "estimation_loop point_cols point_rows img params rest = Inr (False, 0)"
    using Cons by simp
  ultimately show ?case
    using a by (simp add: amt_def [symmetric] Let_def)
qed

text \<open>
  C6. Every value that enters the sample set is strictly positive: a sample that is
  zero (or negative) leaves the set unchanged. When the set collected at full density
  (subsampling step 1) is empty, the estimation loop of \<open>main\<close> ends with
  \<open>success = false\<close> and leaves \<open>estim_max_error\<close> at its initial \<open>0.0\<close>: no threshold is
  produced, and asking the empty accumulator for a value raises \<open>ArgumentErr\<close>.
\<close>

theorem C6_positive_samples_no_threshold:
  "(\<forall>v \<in> set (for_each_pixel samples). 0 < v)
   \<and> (\<forall>v. v \<le> 0 \<longrightarrow> ErrorRangeEstimAccum_call m_vals v = m_vals)
   \<and> (\<forall>v. 0 < v \<longrightarrow> ErrorRangeEstimAccum_call m_vals v = m_vals @ [v])
   \<and> ErrorRangeEstimAccum_value [] params = Inl ArgumentErr
   \<and> (0 \<le> point_cols \<and> point_cols \<le> INT_MAX \<and> 0 \<le> point_rows \<and> point_rows \<le> INT_MAX
        \<and> 0 < ei_cols img \<and> 0 < ei_rows img
        \<and> for_each_pixel (subsample_pixels img 1) = []
      \<longrightarrow> estimate_max_error point_cols point_rows img params = Inr (False, 0))"
proof -
  have a: "\<forall>v \<in> set (for_each_pixel samples). 0 < v"
    by (simp add: for_each_pixel_filter)
  have b: "\<forall>v. v \<le> 0 \<longrightarrow> ErrorRangeEstimAccum_call m_vals v = m_vals"
    by (simp add: ErrorRangeEstimAccum_call_def)
  have c: "\<forall>v. 0 < v \<longrightarrow> ErrorRangeEstimAccum_call m_vals v = m_vals @ [v]"
    by (simp add: ErrorRangeEstimAccum_call_def)
  have d: "ErrorRangeEstimAccum_value [] params = Inl ArgumentErr"
    by (simp add: ErrorRangeEstimAccum_value_def)
  have e: "estimate_max_error point_cols point_rows img params = Inr (False, 0)"
    if "0 \<le> point_cols" "point_cols \<le> INT_MAX" "0 \<le> point_rows" "point_rows \<le> INT_MAX"
      "0 < ei_cols img" "0 < ei_rows img"
      "for_each_pixel (subsample_pixels img 1) = []"
    unfolding estimate_max_error_def
    by (rule estimation_loop_no_samples [OF that]) simp
  from a b c d e show ?thesis by blast
qed

theorem C6_no_threshold_witness:
  "for_each_pixel [0, 2, 0, 5] = [2, 5] \<and> (0 :: real) < 2 \<and> (0 :: real) < 5
   \<and> ErrorRangeEstimAccum_call [2] 0 = [2]
   \<and> for_each_pixel (subsample_pixels \<lparr>ei_cols = 2, ei_rows = 2, ei_pixel = (\<lambda>c r. 0)\<rparr> 1) = []
   \<and> estimate_max_error 2 2 \<lparr>ei_cols = 2, ei_rows = 2, ei_pixel = (\<lambda>c r. 0)\<rparr> (75, 3) = Inr (False, 0)"
proof -
  let ?img = "\<lparr>ei_cols = 2, ei_rows = 2, ei_pixel = (\<lambda>c r. 0 :: real)\<rparr>"
  have s: "for_each_pixel [0, 2, 0, 5] = [2, 5]"
    by (simp add: for_each_pixel_filter)
  have h: "(0 :: int) \<le> 2 \<and> (2 :: int) \<le> INT_MAX \<and> (0 :: int) \<le> 2 \<and> (2 :: int) \<le> INT_MAX
        \<and> 0 < ei_cols ?img \<and> 0 < ei_rows ?img
        \<and> for_each_pixel (subsample_pixels ?img 1) = []"
    by (simp add: INT_MAX_def for_each_pixel_filter subsample_pixels_def c_div_def filter_empty_conv)
  note inst = C6_positive_samples_no_threshold [of "[0, 2, 0, 5]" "[2]" "(75, 3)" 2 2 ?img]
  from inst h have r: "estimate_max_error 2 2 ?img (75, 3) = Inr (False, 0)" by blast
  from inst have "ErrorRangeEstimAccum_call [2] 0 = [2]" by simp
  with s h r show ?thesis by simp
qed

section \<open>Theorems: point-cloud composite\<close>

lemma double_to_int_of_int:
  "INT_MIN \<le> n \<Longrightarrow> n \<le> INT_MAX \<Longrightarrow> double_to_int (real_of_int n) = Some n"
  by (simp add: double_to_int_def)

lemma int_mul_Some:
  "INT_MIN \<le> a * b \<Longrightarrow> a * b \<le> INT_MAX \<Longrightarrow> int_mul a b = Some (a * b)"
  by (simp add: int_mul_def)

lemma ceiling_nonneg:
  assumes "0 \<le> (x :: real)"
  shows "0 \<le> \<lceil>x\<rceil>"
proof -
  have "x \<le> real_of_int \<lceil>x\<rceil>" by (rule le_of_int_ceiling)
  with assms have "0 \<le> real_of_int \<lceil>x\<rceil>" by linarith
  then show ?thesis by (simp only: of_int_0_le_iff)
qed

lemma le_mult_ceiling:
  assumes "0 < (t :: int)"
  shows "a \<le> t * \<lceil>real_of_int a / real_of_int t\<rceil>"
proof -
  have "real_of_int a / real_of_int t \<le> real_of_int \<lceil>real_of_int a / real_of_int t\<rceil>"
    by (rule le_of_int_ceiling)
  moreover have tpos: "0 < real_of_int t" using assms by simp
  ultimately have "real_of_int a \<le> real_of_int t * real_of_int \<lceil>real_of_int a / real_of_int t\<rceil>"
    by (simp only: pos_divide_le_eq [OF tpos] mult.commute)
  then have "real_of_int a \<le> real_of_int (t * \<lceil>real_of_int a / real_of_int t\<rceil>)"
    by simp
  then show ?thesis by (simp only: of_int_le_iff)
qed

lemma le_mult_max_ceiling:
  assumes "0 < (t :: int)"
  shows "a \<le> t * max 1 \<lceil>real_of_int a / real_of_int t\<rceil>"
proof -
  have "t * \<lceil>real_of_int a / real_of_int t\<rceil> \<le> t * max 1 \<lceil>real_of_int a / real_of_int t\<rceil>"
    using assms by (intro mult_left_mono) simp_all
  with le_mult_ceiling [OF assms, of a] show ?thesis by linarith
qed

text \<open>
  C8. For a reader with point count \<open>N\<close>, a supplied row count \<open>R \<ge> 0\<close> and a tile length
  \<open>T > 0\<close> (all within the range of the machine types, the extents fitting an \<open>int\<close>),
  the composite is constructed with \<open>rows = T * max 1 (ceil (R / T))\<close> and
  \<open>cols = T * max 1 (ceil (ceil (N / rows) / T))\<close>; both are multiples of \<open>T\<close>, they are
  the fields returned by \<open>rows()\<close> and \<open>cols()\<close>, and \<open>rows * cols \<ge> N\<close>.
\<close>

theorem C8_extents:
  assumes N: "0 \<le> N" "N \<le> 2 ^ 53"
    and R: "0 \<le> R"
    and T: "0 < T"
    and rws: "rws = T * max 1 \<lceil>real_of_int R / real_of_int T\<rceil>"
    and cls: "cls = T * max 1 \<lceil>real_of_int \<lceil>real_of_int N / real_of_int rws\<rceil> / real_of_int T\<rceil>"
    and fit: "rws \<le> INT_MAX" "cls \<le> INT_MAX"
  shows "LasOrCsvToTif_Class_ctor N R T B = Inr \<lparr>m_rows = rws, m_cols = cls, m_block_size = B\<rparr>
         \<and> rows \<lparr>m_rows = rws, m_cols = cls, m_block_size = B\<rparr> = rws
         \<and> cols \<lparr>m_rows = rws, m_cols = cls, m_block_size = B\<rparr> = cls
         \<and> T dvd rws \<and> T dvd cls
         \<and> \<lceil>real_of_int N / real_of_int rws\<rceil> \<le> cls
         \<and> N \<le> rws * cls"
proof -
  let ?t1 = "\<lceil>real_of_int R / real_of_int T\<rceil>"
  let ?ppr = "\<lceil>real_of_int N / real_of_int rws\<rceil>"
  let ?t2 = "\<lceil>real_of_int ?ppr / real_of_int T\<rceil>"
  have t1_0: "0 \<le> ?t1" using R T by (intro ceiling_nonneg) simp
  have rws_pos: "0 < rws" using T by (simp add: rws)
  have "T * 1 \<le> T * max 1 ?t1" using T by (intro mult_left_mono) simp_all
  then have "T \<le> rws" by (simp add: rws)
  have "1 * max 1 ?t1 \<le> T * max 1 ?t1" using T by (intro mult_right_mono) simp_all
  then have "?t1 \<le> rws" by (simp add: rws)
  then have t1_max: "?t1 \<le> INT_MAX" using fit by linarith
  have c1: "double_to_int (real_of_int ?t1) = Some ?t1"
    using t1_0 t1_max by (intro double_to_int_of_int) (simp_all add: INT_MIN_def)
  have c2: "int_mul T (max 1 ?t1) = Some rws"
    using rws_pos fit by (simp add: int_mul_def rws [symmetric] INT_MIN_def)
  have c3: "uint64_to_double N = Some (real_of_int N)"
    using N by (simp add: uint64_to_double_def)
  have ppr0: "0 \<le> ?ppr" using N rws_pos by (intro ceiling_nonneg) simp
  have cls_pos: "0 < cls" using T by (simp add: cls)
  have ppr_cls: "?ppr \<le> cls" unfolding cls by (rule le_mult_max_ceiling [OF T])
  have c4: "double_to_int (real_of_int ?ppr) = Some ?ppr"
    using ppr0 ppr_cls fit by (intro double_to_int_of_int) (simp_all add: INT_MIN_def)
  have t2_0: "0 \<le> ?t2" using ppr0 T by (intro ceiling_nonneg) simp
  have "1 * max 1 ?t2 \<le> T * max 1 ?t2" using T by (intro mult_right_mono) simp_all
  then have "?t2 \<le> cls" by (simp add: cls)
  then have t2_max: "?t2 \<le> INT_MAX" using fit by linarith
  have c5: "double_to_int (real_of_int ?t2) = Some ?t2"
    using t2_0 t2_max by (intro double_to_int_of_int) (simp_all add: INT_MIN_def)
  have c6: "int_mul T (max 1 ?t2) = Some cls"
    using cls_pos fit by (simp add: int_mul_def cls [symmetric] INT_MIN_def)
  have ctor: "LasOrCsvToTif_Class_ctor N R T B = Inr \<lparr>m_rows = rws, m_cols = cls, m_block_size = B\<rparr>"
    using T by (simp add: LasOrCsvToTif_Class_ctor_def c1 c2 c3 c4 c5 c6 Let_def)
  have "N \<le> rws * ?ppr" by (rule le_mult_ceiling [OF rws_pos])
  also have "\<dots> \<le> rws * cls" using ppr_cls rws_pos by (intro mult_left_mono) simp_all
  finally have big: "N \<le> rws * cls" .
  have d1: "T dvd rws" by (simp add: rws)
  have d2: "T dvd cls" by (simp add: cls)
  show ?thesis using ctor big d1 d2 ppr_cls by (simp add: rows_def cols_def)
qed

theorem C8_extents_witness:
  "(0 :: int) \<le> 5000000 \<and> (5000000 :: int) \<le> 2 ^ 53 \<and> (0 :: int) \<le> 3000 \<and> (0 :: int) < 2048
   \<and> (4096 :: int) = 2048 * max 1 \<lceil>real_of_int 3000 / real_of_int 2048\<rceil>
   \<and> (2048 :: int) = 2048 * max 1 \<lceil>real_of_int \<lceil>real_of_int 5000000 / real_of_int 4096\<rceil> / real_of_int 2048\<rceil>
   \<and> (4096 :: int) \<le> INT_MAX \<and> (2048 :: int) \<le> INT_MAX
   \<and> LasOrCsvToTif_Class_ctor 5000000 3000 2048 256 = Inr \<lparr>m_rows = 4096, m_cols = 2048, m_block_size = 256\<rparr>
   \<and> (2048 :: int) dvd 4096 \<and> (5000000 :: int) \<le> 4096 * 2048"
proof -
  have h1: "(0 :: int) \<le> 5000000" and h2: "(5000000 :: int) \<le> 2 ^ 53"
    and h3: "(0 :: int) \<le> 3000" and h4: "(0 :: int) < 2048" by simp_all
  have h5: "(4096 :: int) = 2048 * max 1 \<lceil>real_of_int 3000 / real_of_int 2048\<rceil>" by simp
  have h6: "(2048 :: int) = 2048 * max 1 \<lceil>real_of_int \<lceil>real_of_int 5000000 / real_of_int 4096\<rceil> / real_of_int 2048\<rceil>"
    by simp
  have h7: "(4096 :: int) \<le> INT_MAX" and h8: "(2048 :: int) \<le> INT_MAX"
    by (simp_all add: INT_MAX_def)
  from C8_extents [OF h1 h2 h3 h4 h5 h6 h7 h8, of 256]
  have "LasOrCsvToTif_Class_ctor 5000000 3000 2048 256 = Inr \<lparr>m_rows = 4096, m_cols = 2048, m_block_size = 256\<rparr>
        \<and> (2048 :: int) dvd 4096 \<and> (5000000 :: int) \<le> 4096 * 2048"
    by blast
  with h1 h2 h3 h4 h5 h6 h7 h8 show ?thesis by blast
qed

section \<open>Theorems: hole filler\<close>

lemma fold_window_step_row:
  "fold (\<lambda>r. window_step img c r) rs acc =
     (fst acc + sum_list (map (\<lambda>r. child (iv_pixel img c r)) (filter (\<lambda>r. is_valid (iv_pixel img c r)) rs)),
      snd acc + int (length (filter (\<lambda>r. is_valid (iv_pixel img c r)) rs)))"
  by (induction rs arbitrary: acc) (simp_all add: window_step_def)

lemma fold_window_step:
  "fold (\<lambda>c. fold (\<lambda>r. window_step img c r) rs) cs acc =
     (fst acc + sum_list (map (\<lambda>(c, r). child (iv_pixel img c r))
                            (filter (\<lambda>(c, r). is_valid (iv_pixel img c r)) (List.product cs rs))),
      snd acc + int (length (filter (\<lambda>(c, r). is_valid (iv_pixel img c r)) (List.product cs rs))))"
proof (induction cs arbitrary: acc)
  case Nil
  show ?case by simp
next
  case (Cons c cs)
  have "fold (\<lambda>c. fold (\<lambda>r. window_step img c r) rs) (c # cs) acc =
        fold (\<lambda>c. fold (\<lambda>r. window_step img c r) rs) cs (fold (\<lambda>r. window_step img c r) rs acc)"
    by simp
  also have "\<dots> = (fst (fold (\<lambda>r. window_step img c r) rs acc)
                      + sum_list (map (\<lambda>(c, r). child (iv_pixel img c r))
                            (filter (\<lambda>(c, r). is_valid (iv_pixel img c r)) (List.product cs rs))),
                   snd (fold (\<lambda>r. window_step img c r) rs acc)
                      + int (length (filter (\<lambda>(c, r). is_valid (iv_pixel img c r)) (List.product cs rs))))"
    by (rule Cons.IH)
  also have "\<dots> = (fst acc + sum_list (map (\<lambda>(c, r). child (iv_pixel img c r))
                            (filter (\<lambda>(c, r). is_valid (iv_pixel img c r)) (List.product (c # cs) rs))),
      snd acc + int (length (filter (\<lambda>(c, r). is_valid (iv_pixel img c r)) (List.product (c # cs) rs))))"
    by (simp add: fold_window_step_row filter_map o_def)
  finally show ?case .
qed

lemma window_as_list:
  "window img k i j =
     set (filter (\<lambda>(c, r). is_valid (iv_pixel img c r))
            (List.product [max 0 (i - k div 2) .. min (iv_cols img - 1) (i + k div 2)]
                          [max 0 (j - k div 2) .. min (iv_rows img - 1) (j + k div 2)]))"
  by (auto simp: window_def)

lemma distinct_window_list:
  "distinct (filter P (List.product [a .. b] [c .. d :: int]))"
  by (intro distinct_filter distinct_product) simp_all

lemma avg_list_set:
  assumes "distinct xs"
  shows "(if length xs = 0 then a else PixelMask (sum_list (map g xs) / real (length xs)) True) =
         (if set xs = {} then a else PixelMask (sum g (set xs) / real (card (set xs))) True)"
  using assms by (simp add: sum_list_distinct_conv_sum_set distinct_card)

lemma FillNoDataWithAvg_call_list:
  assumes "0 < m_kernel_size f"
    and "xs = filter (\<lambda>(c, r). is_valid (iv_pixel (m_img f) c r))
            (List.product [max 0 (i - m_kernel_size f div 2) .. min (iv_cols (m_img f) - 1) (i + m_kernel_size f div 2)]
                          [max 0 (j - m_kernel_size f div 2) .. min (iv_rows (m_img f) - 1) (j + m_kernel_size f div 2)])"
  shows "FillNoDataWithAvg_call f i j =
     (if is_valid (iv_pixel (m_img f) i j) then iv_pixel (m_img f) i j
      else if length xs = 0 then iv_pixel (m_img f) i j
      else PixelMask (sum_list (map (\<lambda>(c, r). child (iv_pixel (m_img f) c r)) xs) / real (length xs)) True)"
proof -
  have k2: "c_div (m_kernel_size f) 2 = m_kernel_size f div 2" using assms(1) by (simp add: c_div_nonneg)
  show ?thesis
    unfolding FillNoDataWithAvg_call_def Let_def k2 fold_window_step fst_conv snd_conv assms(2) [symmetric]
    by simp
qed

lemma FillNoDataWithAvg_call_window:
  assumes "0 < m_kernel_size f"
  shows "FillNoDataWithAvg_call f i j =
     (if is_valid (iv_pixel (m_img f) i j) then iv_pixel (m_img f) i j
      else if window (m_img f) (m_kernel_size f) i j = {} then iv_pixel (m_img f) i j
      else PixelMask ((\<Sum>(c, r) \<in> window (m_img f) (m_kernel_size f) i j. child (iv_pixel (m_img f) c r))
                        / real (card (window (m_img f) (m_kernel_size f) i j))) True)"
proof -
  define xs where "xs = filter (\<lambda>(c, r). is_valid (iv_pixel (m_img f) c r))
            (List.product [max 0 (i - m_kernel_size f div 2) .. min (iv_cols (m_img f) - 1) (i + m_kernel_size f div 2)]
                          [max 0 (j - m_kernel_size f div 2) .. min (iv_rows (m_img f) - 1) (j + m_kernel_size f div 2)])"
  have w: "window (m_img f) (m_kernel_size f) i j = set xs"
    unfolding xs_def by (rule window_as_list)
  have d: "distinct xs"
    unfolding xs_def by (rule distinct_window_list)
  have avg: "(if length xs = 0 then iv_pixel (m_img f) i j
              else PixelMask (sum_list (map (\<lambda>(c, r). child (iv_pixel (m_img f) c r)) xs) / real (length xs)) True) =
             (if set xs = {} then iv_pixel (m_img f) i j
              else PixelMask (sum (\<lambda>(c, r). child (iv_pixel (m_img f) c r)) (set xs) / real (card (set xs))) True)"
    by (rule avg_list_set [OF d])
  show ?thesis
    unfolding FillNoDataWithAvg_call_list [OF assms xs_def] w avg ..
qed

text \<open>
  C7. A filler constructed with window size \<open>k\<close> exists only for odd positive \<open>k\<close>. It
  returns every valid cell unchanged; for a nodata cell it returns the valid pixel whose
  value is the average of all valid cells of the clipped \<open>k\<close>-by-\<open>k\<close> window centred
  on it when there is one, and the nodata cell itself when there is none. In
  scenario D the centre cell is filled with the value 10.
\<close>

theorem C7_hole_filler:
  assumes "FillNoDataWithAvg_ctor img k = Inr f"
  shows "odd k \<and> 0 < k
    \<and> (is_valid (iv_pixel img i j) \<longrightarrow> FillNoDataWithAvg_call f i j = iv_pixel img i j)
    \<and> (\<not> is_valid (iv_pixel img i j) \<and> window img k i j \<noteq> {} \<longrightarrow>
          FillNoDataWithAvg_call f i j =
            PixelMask ((\<Sum>(c, r) \<in> window img k i j. child (iv_pixel img c r)) / real (card (window img k i j))) True)
    \<and> (\<not> is_valid (iv_pixel img i j) \<and> window img k i j = {} \<longrightarrow>
          FillNoDataWithAvg_call f i j = iv_pixel img i j \<and> \<not> is_valid (FillNoDataWithAvg_call f i j))
    \<and> (\<forall>k'. \<not> (odd k' \<and> 0 < k') \<longrightarrow> FillNoDataWithAvg_ctor img k' = Inl ArgumentErr)
    \<and> FillNoDataWithAvg_call \<lparr>m_img = scenario_D, m_kernel_size = 3\<rparr> 1 1 = PixelMask 10 True"
proof -
  from assms have f: "f = \<lparr>m_img = img, m_kernel_size = k\<rparr>" and k: "c_rem k 2 = 1" "0 < k"
    by (auto simp: FillNoDataWithAvg_ctor_def split: if_splits)
  have "k - 2 * (k div 2) = 1" using k by (simp add: c_rem_def c_div_nonneg)
  then have "odd k" by presburger
  moreover have "0 < m_kernel_size f" using k f by simp
  note FillNoDataWithAvg_call_window [OF this, of i j]
  moreover have "FillNoDataWithAvg_ctor img k' = Inl ArgumentErr" if "\<not> (odd k' \<and> 0 < k')" for k'
  proof (cases "0 < k'")
    case True
    with that have "even k'" by simp
    then have "k' - 2 * (k' div 2) = 0" by presburger
    then have "c_rem k' 2 = 0" using True by (simp add: c_rem_def c_div_nonneg)
    then show ?thesis by (simp add: FillNoDataWithAvg_ctor_def)
  next
    case False
    then show ?thesis by (simp add: FillNoDataWithAvg_ctor_def)
  qed
  moreover have "FillNoDataWithAvg_call \<lparr>m_img = scenario_D, m_kernel_size = 3\<rparr> 1 1 = PixelMask 10 True"
    by (simp add: FillNoDataWithAvg_call_def scenario_D_def c_div_def Let_def window_step_def upto_rec1)
  ultimately show ?thesis using k(2) by (simp add: f)
qed

theorem C7_hole_filler_witness:
  "FillNoDataWithAvg_ctor scenario_D 3 = Inr \<lparr>m_img = scenario_D, m_kernel_size = 3\<rparr>
   \<and> \<not> is_valid (iv_pixel scenario_D 1 1)
   \<and> window scenario_D 3 1 1 \<noteq> {}
   \<and> is_valid (iv_pixel scenario_D 0 2)
   \<and> FillNoDataWithAvg_call \<lparr>m_img = scenario_D, m_kernel_size = 3\<rparr> 0 2 = PixelMask 10 True
   \<and> FillNoDataWithAvg_call \<lparr>m_img = scenario_D, m_kernel_size = 3\<rparr> 1 1 =
       PixelMask ((\<Sum>(c, r) \<in> window scenario_D 3 1 1. child (iv_pixel scenario_D c r))
                    / real (card (window scenario_D 3 1 1))) True
   \<and> FillNoDataWithAvg_ctor scenario_D 4 = Inl ArgumentErr"
proof -
  have c: "FillNoDataWithAvg_ctor scenario_D 3 = Inr \<lparr>m_img = scenario_D, m_kernel_size = 3\<rparr>"
    by (simp add: FillNoDataWithAvg_ctor_def c_rem_def c_div_def)
  have n: "\<not> is_valid (iv_pixel scenario_D 1 1)" and v: "is_valid (iv_pixel scenario_D 0 2)"
    by (simp_all add: scenario_D_def)
  have "(0, 0) \<in> window scenario_D 3 1 1"
    by (simp add: window_def scenario_D_def)
  then have w: "window scenario_D 3 1 1 \<noteq> {}" by blast
  have p: "iv_pixel scenario_D 0 2 = PixelMask 10 True" by (simp add: scenario_D_def)
  have e: "\<not> (odd (4 :: int) \<and> 0 < (4 :: int))" by simp
  from C7_hole_filler [OF c, of 1 1] n w
  have a: "FillNoDataWithAvg_call \<lparr>m_img = scenario_D, m_kernel_size = 3\<rparr> 1 1 =
       PixelMask ((\<Sum>(c, r) \<in> window scenario_D 3 1 1. child (iv_pixel scenario_D c r))
                    / real (card (window scenario_D 3 1 1))) True"
    by blast
  from C7_hole_filler [OF c, of 0 2] v p
  have b: "FillNoDataWithAvg_call \<lparr>m_img = scenario_D, m_kernel_size = 3\<rparr> 0 2 = PixelMask 10 True"
    by simp
  from C7_hole_filler [OF c, of 0 0] e
  have d: "FillNoDataWithAvg_ctor scenario_D 4 = Inl ArgumentErr" by blast
  from c n w v a b d show ?thesis by blast
qed

section \<open>Theorems: text parser\<close>

lemma count_valid_lines_eq:
  "n + int (length (filter is_valid_csv_line (file_lines fh))) \<le> INT_MAX \<Longrightarrow>
   count_valid_lines fh n = Inr (n + int (length (filter is_valid_csv_line (file_lines fh))))"
proof (induction fh n rule: count_valid_lines.induct)
  case (1 fh n)
  show ?case
  proof (cases "getline fh")
    case None
    then show ?thesis
      by (subst count_valid_lines.simps, subst file_lines.simps) simp
  next
    case (Some p)
    obtain line rest where p: "p = (line, rest)" by (cases p)
    have fl: "file_lines fh = line # file_lines rest"
      using Some p by (subst file_lines.simps) simp
    show ?thesis
    proof (cases "is_valid_csv_line line")
      case False
      with 1 Some p fl show ?thesis
        by (subst count_valid_lines.simps) simp
    next
      case True
      with "1.prems" fl have bound: "n + 1 + int (length (filter is_valid_csv_line (file_lines rest))) \<le> INT_MAX"
        by simp
      then have "n \<noteq> INT_MAX" by linarith
      moreover have "count_valid_lines rest (n + 1) =
          Inr (n + 1 + int (length (filter is_valid_csv_line (file_lines rest))))"
        using "1.IH"(2) [OF Some p [symmetric] _ _ bound] True \<open>n \<noteq> INT_MAX\<close> by simp
      ultimately show ?thesis using Some p fl True
        by (subst count_valid_lines.simps) simp
    qed
  qed
qed

lemma getline_unterminated:
  "CHR 0x0A \<notin> set l \<Longrightarrow> getline (l @ CHR 0x0A # rest) = Some (l, rest)"
proof -
  assume a: "CHR 0x0A \<notin> set l"
  then have "\<And>x. x \<in> set l \<Longrightarrow> x \<noteq> CHR 0x0A" by blast
  then have "takeWhile (\<lambda>c. c \<noteq> CHR 0x0A) (l @ CHR 0x0A # rest) = l"
    and "dropWhile (\<lambda>c. c \<noteq> CHR 0x0A) (l @ CHR 0x0A # rest) = CHR 0x0A # rest"
    by (simp_all add: takeWhile_append2 dropWhile_append2)
  then show ?thesis by (simp add: getline_def)
qed

lemma file_lines_terminated:
  "\<forall>l \<in> set ls. CHR 0x0A \<notin> set l \<Longrightarrow> file_lines (concat (map (\<lambda>l. l @ [CHR 0x0A]) ls)) = ls"
proof (induction ls)
  case Nil
  show ?case by (subst file_lines.simps) (simp add: getline_def)
next
  case (Cons l ls)
  then have "getline (concat (map (\<lambda>l. l @ [CHR 0x0A]) (l # ls))) =
             Some (l, concat (map (\<lambda>l. l @ [CHR 0x0A]) ls))"
    using getline_unterminated [of l] by simp
  then show ?case using Cons by (subst file_lines.simps) simp
qed

lemma strtok_all_Nil: "strtok_all sep [] [] = []" by simp

lemma blank_line_state:
  "parse_csv_line_loop scan sep conv [] =
     Inr \<lparr>values' = \<lparr>point_data = Vector3 0 0 0, file' = []\<rparr>,
          num_floats_read = 0, num_values_read = 0, success = True\<rparr>"
  by (simp add: parse_csv_line_loop_def c_str_def bufSize_def)


lemma vec_set_SomeD: "vec_set v i x = Some pd \<Longrightarrow> 0 \<le> i \<and> i < 3"
  by (cases v) (auto split: if_splits)


















text \<open>
  C4. When the first line of a source fails to parse, \<open>ReadNextPoint\<close> does not raise:
  it clears the first-line flag and tries the next line, once. If there is no next line
  it returns false; if the next line fails as well it throws \<open>IOErr\<close>; if the next
  line parses, its record is the point read. A failing line met when the first-line flag
  is clear makes \<open>ReadNextPoint\<close> throw \<open>IOErr\<close>, and the flag is clear after every call
  that has consumed a line, so only the first line of the source is ever excused.
\<close>

theorem C4_header_retry_then_fatal:
  assumes "getline (m_ifs rd) = Some (line1, rest1)"
    and "parse_fails scan sep (m_csv_conv rd) line1"
  shows "(m_is_first_line rd \<and> getline rest1 = None \<longrightarrow>
            ReadNextPoint scan sep rd =
              Inr (False, rd\<lparr>m_ifs := rest1, m_has_valid_point := False, m_is_first_line := False\<rparr>))
     \<and> (\<forall>line2 rest2. m_is_first_line rd \<and> getline rest1 = Some (line2, rest2)
            \<and> parse_fails scan sep (m_csv_conv rd) line2 \<longrightarrow>
            ReadNextPoint scan sep rd = Inl IOErr)
     \<and> (\<forall>line2 rest2 vals. m_is_first_line rd \<and> getline rest1 = Some (line2, rest2)
            \<and> parse_csv_line scan sep (m_csv_conv rd) False line2 = Inr (False, True, vals) \<longrightarrow>
            ReadNextPoint scan sep rd =
              (case csv_to_cartesian_or_point_height (m_csv_conv rd) vals (m_georef rd) True of
                 Inl e \<Rightarrow> Inl e
               | Inr p \<Rightarrow> Inr (True, rd\<lparr>m_ifs := rest2, m_has_valid_point := True,
                                         m_is_first_line := False, m_curr_point := p\<rparr>)))
     \<and> (\<not> m_is_first_line rd \<longrightarrow> ReadNextPoint scan sep rd = Inl IOErr)
     \<and> (\<forall>b rd'. ReadNextPoint scan sep rd = Inr (b, rd') \<longrightarrow> \<not> m_is_first_line rd')"
proof -
  let ?conv = "m_csv_conv rd"
  let ?v0 = "\<lparr>point_data = Vector3 0 0 0, file' = []\<rparr>"
  from assms(2) obtain v1 where
    p1: "parse_csv_line scan sep ?conv True line1 = Inr (False, False, v1)"
    by (auto simp: parse_fails_def parse_csv_line_def Let_def split: sum.splits if_splits)
  then have q1: "parse_csv_line scan sep ?conv False line1 = Inl IOErr"
    by (auto simp: parse_csv_line_def Let_def split: sum.splits if_splits)
  let ?rd1 = "rd\<lparr>m_ifs := rest1, m_has_valid_point := True, m_is_first_line := False\<rparr>"
  have step1: "read_attempts scan sep 2 rd ?v0 = read_attempts scan sep 1 ?rd1 v1"
    if "m_is_first_line rd"
    using that assms(1) p1 by (simp add: numeral_2_eq_2 Let_def)
  have a: "ReadNextPoint scan sep rd =
              Inr (False, rd\<lparr>m_ifs := rest1, m_has_valid_point := False, m_is_first_line := False\<rparr>)"
    if "m_is_first_line rd" "getline rest1 = None"
    using that step1 by (simp add: ReadNextPoint_def Let_def)
  have b: "ReadNextPoint scan sep rd = Inl IOErr"
    if "m_is_first_line rd" "getline rest1 = Some (line2, rest2)" "parse_fails scan sep ?conv line2"
    for line2 rest2
  proof -
    from that(3) have "parse_csv_line scan sep ?conv False line2 = Inl IOErr"
      by (auto simp: parse_fails_def parse_csv_line_def Let_def split: sum.splits if_splits)
    with that step1 show ?thesis by (simp add: ReadNextPoint_def Let_def)
  qed
  have c: "ReadNextPoint scan sep rd =
              (case csv_to_cartesian_or_point_height ?conv vals (m_georef rd) True of
                 Inl e \<Rightarrow> Inl e
               | Inr p \<Rightarrow> Inr (True, rd\<lparr>m_ifs := rest2, m_has_valid_point := True,
                                         m_is_first_line := False, m_curr_point := p\<rparr>))"
    if "m_is_first_line rd" "getline rest1 = Some (line2, rest2)"
      "parse_csv_line scan sep ?conv False line2 = Inr (False, True, vals)"
    for line2 rest2 vals
    using that step1 by (simp add: ReadNextPoint_def Let_def split: sum.splits)
  have d: "ReadNextPoint scan sep rd = Inl IOErr" if "\<not> m_is_first_line rd"
    using that assms(1) q1 by (simp add: ReadNextPoint_def numeral_2_eq_2 Let_def)
  have e: "\<not> m_is_first_line rd'" if r: "ReadNextPoint scan sep rd = Inr (b, rd')" for b rd'
  proof (cases "m_is_first_line rd")
    case False
    with d r show ?thesis by simp
  next
    case True
    note s = step1 [OF True]
    show ?thesis
    proof (cases "getline rest1")
      case None
      with a [OF True] r show ?thesis by auto
    next
      case (Some p)
      obtain line2 rest2 where p: "p = (line2, rest2)" by (cases p)
      from r s Some p show ?thesis
        by (auto simp: ReadNextPoint_def parse_csv_line_def Let_def split: sum.splits if_splits option.splits)
    qed
  qed
  from a b c d e show ?thesis by blast
qed

text \<open>
  C10. \<open>csv_file_size\<close> returns the number of lines of the file, as \<open>getline\<close> delivers
  them, that are not empty and do not start with \<open>#\<close> (the count being an \<open>int\<close>, it
  must fit one). The lines of a file made of newline-terminated lines are those lines.
  A file that cannot be opened raises \<open>IOErr\<close>. The line parser does not skip a blank
  line: with a nonzero target count it throws \<open>IOErr\<close> on it when it is not the first.
\<close>

theorem C10_csv_file_size_counts_valid_lines:
  "(length (filter is_valid_csv_line (file_lines content)) \<le> nat INT_MAX \<longrightarrow>
      csv_file_size (Some content) =
        Inr (int (length (filter (\<lambda>line. line \<noteq> [] \<and> hd line \<noteq> CHR ''#'') (file_lines content)))))
   \<and> ((\<forall>l \<in> set ls. CHR 0x0A \<notin> set l) \<longrightarrow> file_lines (concat (map (\<lambda>l. l @ [CHR 0x0A]) ls)) = ls)
   \<and> csv_file_size None = Inl IOErr
   \<and> (num_targets conv \<noteq> 0 \<longrightarrow> parse_csv_line scan sep conv False [] = Inl IOErr)"
proof -
  have v: "is_valid_csv_line = (\<lambda>line. line \<noteq> [] \<and> hd line \<noteq> CHR ''#'')"
    by (rule ext) (auto simp: is_valid_csv_line_def hd_conv_nth)
  have a: "csv_file_size (Some content) =
        Inr (int (length (filter (\<lambda>line. line \<noteq> [] \<and> hd line \<noteq> CHR ''#'') (file_lines content))))"
    if "length (filter is_valid_csv_line (file_lines content)) \<le> nat INT_MAX"
  proof -
    from that have "0 + int (length (filter is_valid_csv_line (file_lines content))) \<le> INT_MAX"
      by (simp add: INT_MAX_def)
    from count_valid_lines_eq [OF this] show ?thesis
      by (simp add: csv_file_size_def v)
  qed
  have b: "parse_csv_line scan sep conv False [] = Inl IOErr" if "num_targets conv \<noteq> 0"
    using that by (simp add: parse_csv_line_def blank_line_state)
  show ?thesis
    using a b file_lines_terminated [of ls] by (simp add: csv_file_size_def)
qed

theorem C10_csv_file_size_witness:
  "file_lines (concat (map (\<lambda>l. l @ [CHR 0x0A]) [''# header'', ''1 2 3'', [], ''4 5 6''])) =
     [''# header'', ''1 2 3'', [], ''4 5 6'']
   \<and> length (filter is_valid_csv_line [''# header'', ''1 2 3'', [], ''4 5 6'']) \<le> nat INT_MAX
   \<and> csv_file_size (Some (concat (map (\<lambda>l. l @ [CHR 0x0A]) [''# header'', ''1 2 3'', [], ''4 5 6'']))) = Inr 2
   \<and> num_targets conv_xyz \<noteq> 0
   \<and> parse_csv_line scan_decimal '', '' conv_xyz False [] = Inl IOErr"
proof -
  let ?ls = "[''# header'', ''1 2 3'', [], ''4 5 6'']"
  let ?content = "concat (map (\<lambda>l. l @ [CHR 0x0A]) ?ls)"
  note inst = C10_csv_file_size_counts_valid_lines [of ?content ?ls conv_xyz scan_decimal "'', ''"]
  have nl: "\<forall>l \<in> set ?ls. CHR 0x0A \<notin> set l" by simp
  with inst have fl: "file_lines ?content = ?ls" by blast
  have len: "length (filter is_valid_csv_line ?ls) \<le> nat INT_MAX"
    by (simp add: is_valid_csv_line_def INT_MAX_def)
  then have "length (filter is_valid_csv_line (file_lines ?content)) \<le> nat INT_MAX"
    by (simp only: fl)
  with inst have "csv_file_size (Some ?content) =
      Inr (int (length (filter (\<lambda>line. line \<noteq> [] \<and> hd line \<noteq> CHR ''#'') (file_lines ?content))))"
    by blast
  then have "csv_file_size (Some ?content) =
      Inr (int (length (filter (\<lambda>line. line \<noteq> [] \<and> hd line \<noteq> CHR ''#'') ?ls)))"
    by (simp only: fl)
  moreover have "int (length (filter (\<lambda>line. line \<noteq> [] \<and> hd line \<noteq> CHR ''#'') ?ls)) = 2"
    by simp
  ultimately have sz: "csv_file_size (Some ?content) = Inr 2"
    by (simp only:)
  have nt: "num_targets conv_xyz \<noteq> 0" by (simp add: conv_xyz_def)
  with inst have bl: "parse_csv_line scan_decimal '', '' conv_xyz False [] = Inl IOErr" by blast
  from fl len sz nt bl show ?thesis by blast
qed



lemma conv_xyz_parsed: "parse_csv_format CsvConv_default ''1:x 2:y 3:z'' [] = Inr conv_xyz"
  by code_simp

theorem C4_header_retry_witness:
  "CsvReader_ctor (Some (''x y z'' @ CHR 0x0A # ''1 2 3'' @ [CHR 0x0A])) conv_xyz geo_unused =
     Inr \<lparr>m_num_points = 2, m_has_georef = False, m_csv_conv = conv_xyz, m_georef = geo_unused,
          m_is_first_line = True, m_has_valid_point = False, m_curr_point = Vector3 0 0 0,
          m_ifs = ''x y z'' @ CHR 0x0A # ''1 2 3'' @ [CHR 0x0A]\<rparr>
   \<and> getline (''x y z'' @ CHR 0x0A # ''1 2 3'' @ [CHR 0x0A]) = Some (''x y z'', ''1 2 3'' @ [CHR 0x0A])
   \<and> parse_fails scan_decimal '', '' conv_xyz ''x y z''
   \<and> ReadNextPoint scan_decimal '', ''
        \<lparr>m_num_points = 2, m_has_georef = False, m_csv_conv = conv_xyz, m_georef = geo_unused,
         m_is_first_line = True, m_has_valid_point = False, m_curr_point = Vector3 0 0 0,
         m_ifs = ''x y z'' @ CHR 0x0A # ''1 2 3'' @ [CHR 0x0A]\<rparr> =
       Inr (True, \<lparr>m_num_points = 2, m_has_georef = False, m_csv_conv = conv_xyz, m_georef = geo_unused,
                  m_is_first_line = False, m_has_valid_point = True, m_curr_point = Vector3 1 2 3,
                  m_ifs = []\<rparr>)
   \<and> ReadNextPoint scan_decimal '', ''
        \<lparr>m_num_points = 2, m_has_georef = False, m_csv_conv = conv_xyz, m_georef = geo_unused,
         m_is_first_line = True, m_has_valid_point = False, m_curr_point = Vector3 0 0 0,
         m_ifs = ''x y z'' @ CHR 0x0A # ''a b c'' @ [CHR 0x0A]\<rparr> = Inl IOErr
   \<and> ReadNextPoint scan_decimal '', ''
        \<lparr>m_num_points = 2, m_has_georef = False, m_csv_conv = conv_xyz, m_georef = geo_unused,
         m_is_first_line = False, m_has_valid_point = True, m_curr_point = Vector3 1 2 3,
         m_ifs = ''x y z''\<rparr> = Inl IOErr"
proof -
  let ?rd1 = "\<lparr>m_num_points = 2, m_has_georef = False, m_csv_conv = conv_xyz, m_georef = geo_unused,
         m_is_first_line = True, m_has_valid_point = False, m_curr_point = Vector3 0 0 0,
         m_ifs = ''x y z'' @ CHR 0x0A # ''1 2 3'' @ [CHR 0x0A]\<rparr>"
  let ?rd2 = "\<lparr>m_num_points = 2, m_has_georef = False, m_csv_conv = conv_xyz, m_georef = geo_unused,
         m_is_first_line = True, m_has_valid_point = False, m_curr_point = Vector3 0 0 0,
         m_ifs = ''x y z'' @ CHR 0x0A # ''a b c'' @ [CHR 0x0A]\<rparr>"
  let ?rd3 = "\<lparr>m_num_points = 2, m_has_georef = False, m_csv_conv = conv_xyz, m_georef = geo_unused,
         m_is_first_line = False, m_has_valid_point = True, m_curr_point = Vector3 1 2 3,
         m_ifs = ''x y z''\<rparr>"
  have sz: "csv_file_size (Some (''x y z'' @ CHR 0x0A # ''1 2 3'' @ [CHR 0x0A])) = Inr 2"
    by code_simp
  have ct: "CsvReader_ctor (Some (''x y z'' @ CHR 0x0A # ''1 2 3'' @ [CHR 0x0A])) conv_xyz geo_unused = Inr ?rd1"
    unfolding CsvReader_ctor_def sz by (simp add: conv_xyz_def)
  have g0: "getline (''x y z'' @ CHR 0x0A # ''1 2 3'' @ [CHR 0x0A]) = Some (''x y z'', ''1 2 3'' @ [CHR 0x0A])"
    by (simp add: getline_def)
  then have g1: "getline (m_ifs ?rd1) = Some (''x y z'', ''1 2 3'' @ [CHR 0x0A])"
    by simp
  have g2: "getline (m_ifs ?rd2) = Some (''x y z'', ''a b c'' @ [CHR 0x0A])"
    by (simp add: getline_def)
  have g3: "getline (m_ifs ?rd3) = Some (''x y z'', [])"
    by (simp add: getline_def)
  have f: "parse_fails scan_decimal '', '' conv_xyz ''x y z''" by code_simp
  have f1: "parse_fails scan_decimal '', '' (m_csv_conv ?rd1) ''x y z''"
    and f2: "parse_fails scan_decimal '', '' (m_csv_conv ?rd2) ''x y z''"
    and f3: "parse_fails scan_decimal '', '' (m_csv_conv ?rd3) ''x y z''"
    using f by simp_all
  have n1: "getline (''1 2 3'' @ [CHR 0x0A]) = Some (''1 2 3'', [])"
    by (simp add: getline_def)
  have n2: "getline (''a b c'' @ [CHR 0x0A]) = Some (''a b c'', [])"
    by (simp add: getline_def)
  have "parse_csv_line scan_decimal '', '' conv_xyz False ''1 2 3'' =
      Inr (False, True, \<lparr>point_data = Vector3 1 2 3, file' = []\<rparr>)"
    by code_simp
  then have p1: "parse_csv_line scan_decimal '', '' (m_csv_conv ?rd1) False ''1 2 3'' =
      Inr (False, True, \<lparr>point_data = Vector3 1 2 3, file' = []\<rparr>)"
    by simp
  have "parse_fails scan_decimal '', '' conv_xyz ''a b c''" by code_simp
  then have p2: "parse_fails scan_decimal '', '' (m_csv_conv ?rd2) ''a b c''" by simp
  have cv: "csv_to_cartesian_or_point_height conv_xyz \<lparr>point_data = Vector3 1 2 3, file' = []\<rparr> geo_unused True =
      Inr (Vector3 1 2 3)"
    by (simp add: csv_to_cartesian_or_point_height_def sort_parsed_vector3_def conv_xyz_def)
  have fl1: "m_is_first_line ?rd1" and fl2: "m_is_first_line ?rd2" and fl3: "\<not> m_is_first_line ?rd3"
    by simp_all
  from C4_header_retry_then_fatal [OF g1 f1] fl1 n1 p1
  have "ReadNextPoint scan_decimal '', '' ?rd1 =
      (case csv_to_cartesian_or_point_height (m_csv_conv ?rd1) \<lparr>point_data = Vector3 1 2 3, file' = []\<rparr>
              (m_georef ?rd1) True of
         Inl e \<Rightarrow> Inl e
       | Inr p \<Rightarrow> Inr (True, ?rd1\<lparr>m_ifs := [], m_has_valid_point := True,
                                   m_is_first_line := False, m_curr_point := p\<rparr>))"
    by blast
  then have a: "ReadNextPoint scan_decimal '', '' ?rd1 =
       Inr (True, \<lparr>m_num_points = 2, m_has_georef = False, m_csv_conv = conv_xyz, m_georef = geo_unused,
                  m_is_first_line = False, m_has_valid_point = True, m_curr_point = Vector3 1 2 3,
                  m_ifs = []\<rparr>)"
    by (simp add: cv)
  from C4_header_retry_then_fatal [OF g2 f2] fl2 n2 p2
  have b: "ReadNextPoint scan_decimal '', '' ?rd2 = Inl IOErr" by blast
  from C4_header_retry_then_fatal [OF g3 f3] fl3
  have c: "ReadNextPoint scan_decimal '', '' ?rd3 = Inl IOErr" by blast
  from ct g0 f a b c show ?thesis by blast
qed

section \<open>Theorems: format descriptor\<close>















section \<open>Theorems: coordinate conversions\<close>

lemma norm_2_nonneg: "0 \<le> norm_2 v"
  by (cases v) simp





















end
